theory Spec2Isabelle
  imports Complex_Main "HOL-Library.Sublist"
begin

section \<open>Data model\<close>

text \<open>
  The analyzer of \<^verbatim>\<open>data_analyzer.py\<close> holds three collections read from the tap's
  output: \<^verbatim>\<open>self.users\<close> (a dict keyed by the user's id), \<^verbatim>\<open>self.posts\<close> and
  \<^verbatim>\<open>self.comments\<close> (lists). The records are the JSON objects of the three streams;
  they are modelled as records carrying the fields the code reads, typed as the stream
  schemas of \<^verbatim>\<open>streams.py\<close> declare them (integer ids, string texts). The analyzer reads
  a user's \<^verbatim>\<open>username\<close> with \<^verbatim>\<open>.get\<close> and a default, so that field is optional.
  Strings are HOL strings, a character read as a code point below 256.
  Python dicts keep insertion order, so they are association lists.
\<close>

record user =
  u_id :: int
  u_username :: "string option"

record post =
  p_userId :: int
  p_id :: int
  p_title :: string
  p_body :: string

record comment =
  c_postId :: int
  c_id :: int
  c_name :: string
  c_email :: string
  c_body :: string

record analyzer =
  users :: "(int \<times> user) list"
  posts :: "post list"
  comments :: "comment list"

datatype py_error = ZeroDivisionError | StatisticsError | ValueError

section \<open>Python primitives used by the analyzer\<close>

text \<open>\<^verbatim>\<open>a / b\<close> on integers: true division, raising on a zero divisor. The quotient is
  kept exact (a rational) where Python rounds it to a float.\<close>

definition truediv :: "nat \<Rightarrow> nat \<Rightarrow> py_error + rat" where
  "truediv a b = (if b = 0 then Inl ZeroDivisionError else Inr (of_nat a / of_nat b))"

text \<open>\<^verbatim>\<open>str(n)\<close> for an integer.\<close>

fun str_nat :: "nat \<Rightarrow> string" where
  "str_nat n = (if n < 10 then [''0123456789'' ! n]
                else str_nat (n div 10) @ [''0123456789'' ! (n mod 10)])"

declare str_nat.simps [simp del]

definition str_int :: "int \<Rightarrow> string" where
  "str_int i = (if i < 0 then CHR ''-'' # str_nat (nat (- i)) else str_nat (nat i))"

text \<open>\<^verbatim>\<open>s.split()\<close>: the maximal runs of non-whitespace characters. The whitespace
  characters below 256 are those for which \<^verbatim>\<open>str.isspace\<close> holds.\<close>

definition is_space :: "char \<Rightarrow> bool" where
  "is_space c \<longleftrightarrow> c \<in> set [CHR 0x09, CHR 0x0A, CHR 0x0B, CHR 0x0C, CHR 0x0D,
      CHR 0x1C, CHR 0x1D, CHR 0x1E, CHR 0x1F, CHR 0x20, CHR 0x85, CHR 0xA0]"

fun split_from :: "string \<Rightarrow> string \<Rightarrow> string list" where
  "split_from cur [] = (if cur = [] then [] else [rev cur])"
| "split_from cur (c # cs) =
     (if is_space c then (if cur = [] then split_from [] cs else rev cur # split_from [] cs)
      else split_from (c # cur) cs)"

definition split_ws :: "string \<Rightarrow> string list" where
  "split_ws s = split_from [] s"

text \<open>A \<^verbatim>\<open>defaultdict\<close>: \<^verbatim>\<open>d[k] = f(d[k])\<close> creates the entry from the default when
  the key is new (at the end, as a dict keeps insertion order), and \<^verbatim>\<open>d[k]\<close> read on a
  missing key gives the default.\<close>

fun dd_modify :: "'v \<Rightarrow> 'k \<Rightarrow> ('v \<Rightarrow> 'v) \<Rightarrow> ('k \<times> 'v) list \<Rightarrow> ('k \<times> 'v) list" where
  "dd_modify d k f [] = [(k, f d)]"
| "dd_modify d k f (e # es) =
     (if fst e = k then (fst e, f (snd e)) # es else e # dd_modify d k f es)"

definition dd_get :: "'v \<Rightarrow> 'k \<Rightarrow> ('k \<times> 'v) list \<Rightarrow> 'v" where
  "dd_get d k es = (case map_of es k of None \<Rightarrow> d | Some v \<Rightarrow> v)"

text \<open>A loop whose body may raise: the first error ends it.\<close>

fun traverse :: "('a \<Rightarrow> 'e + 'b) \<Rightarrow> 'a list \<Rightarrow> 'e + 'b list" where
  "traverse f [] = Inr []"
| "traverse f (x # xs) =
     (case f x of Inl e \<Rightarrow> Inl e
      | Inr y \<Rightarrow> (case traverse f xs of Inl e \<Rightarrow> Inl e | Inr ys \<Rightarrow> Inr (y # ys)))"

section \<open>User activity analysis\<close>

record user_metrics =
  post_count :: nat
  total_comments_received :: nat
  avg_comments_per_post :: rat
  total_words_in_posts :: nat
  avg_post_length :: rat
  username :: "string option"

text \<open>The default entry of \<^verbatim>\<open>user_metrics\<close>; it has no \<^verbatim>\<open>username\<close> key.\<close>

definition default_metrics :: user_metrics where
  "default_metrics = \<lparr>post_count = 0, total_comments_received = 0, avg_comments_per_post = 0,
     total_words_in_posts = 0, avg_post_length = 0, username = None\<rparr>"

text \<open>First loop over the posts: count the post and its words under its \<^verbatim>\<open>userId\<close>.\<close>

definition count_post :: "post \<Rightarrow> (int \<times> user_metrics) list \<Rightarrow> (int \<times> user_metrics) list" where
  "count_post p um = dd_modify default_metrics (p_userId p)
     (\<lambda>m. m\<lparr>post_count := post_count m + 1,
             total_words_in_posts := total_words_in_posts m + length (split_ws (p_body p))\<rparr>) um"

text \<open>\<^verbatim>\<open>post_comments\<close>: the comments grouped by \<^verbatim>\<open>postId\<close>.\<close>

definition group_comments :: "comment list \<Rightarrow> (int \<times> comment list) list" where
  "group_comments cs = fold (\<lambda>c pc. dd_modify [] (c_postId c) (\<lambda>l. l @ [c]) pc) cs []"

text \<open>Second loop over the posts: add the number of the post's comments.\<close>

definition count_comments ::
  "(int \<times> comment list) list \<Rightarrow> post \<Rightarrow> (int \<times> user_metrics) list \<Rightarrow> (int \<times> user_metrics) list" where
  "count_comments pc p um = dd_modify default_metrics (p_userId p)
     (\<lambda>m. m\<lparr>total_comments_received :=
               total_comments_received m + length (dd_get [] (p_id p) pc)\<rparr>) um"

text \<open>\<^verbatim>\<open>self.users.get(user_id, {}).get('username', f'User {user_id}')\<close>\<close>

definition resolve_username :: "(int \<times> user) list \<Rightarrow> int \<Rightarrow> string" where
  "resolve_username us uid =
     (case map_of us uid of
        None \<Rightarrow> ''User '' @ str_int uid
      | Some u \<Rightarrow> (case u_username u of None \<Rightarrow> ''User '' @ str_int uid | Some n \<Rightarrow> n))"

text \<open>The body of the last loop, over the entries of \<^verbatim>\<open>user_metrics\<close>.\<close>

definition finalize :: "(int \<times> user) list \<Rightarrow> int \<times> user_metrics \<Rightarrow> py_error + (int \<times> user_metrics)" where
  "finalize us e =
     (let uid = fst e; m = snd e in
      if post_count m > 0 then
        (case truediv (total_comments_received m) (post_count m) of
           Inl err \<Rightarrow> Inl err
         | Inr a \<Rightarrow>
            (case truediv (total_words_in_posts m) (post_count m) of
               Inl err \<Rightarrow> Inl err
             | Inr b \<Rightarrow> Inr (uid, m\<lparr>avg_comments_per_post := a, avg_post_length := b,
                                     username := Some (resolve_username us uid)\<rparr>)))
      else Inr (uid, m))"

definition analyze_user_activity :: "analyzer \<Rightarrow> py_error + (int \<times> user_metrics) list" where
  "analyze_user_activity st =
     (if users st = [] then Inr []
      else
        (let um1 = fold count_post (posts st) [];
             pc = group_comments (comments st);
             um2 = fold (count_comments pc) (posts st) um1
         in traverse (finalize (users st)) um2))"

text \<open>The entry the last loop's body leaves, with its two quotients written out; it is
  related to \<open>finalize\<close> by lemma \<open>finalize_total\<close> below.\<close>

definition finalized :: "(int \<times> user) list \<Rightarrow> int \<times> user_metrics \<Rightarrow> int \<times> user_metrics" where
  "finalized us e =
     (if post_count (snd e) > 0 then
        (fst e, (snd e)\<lparr>avg_comments_per_post :=
                          of_nat (total_comments_received (snd e)) / of_nat (post_count (snd e)),
                        avg_post_length :=
                          of_nat (total_words_in_posts (snd e)) / of_nat (post_count (snd e)),
                        username := Some (resolve_username us (fst e))\<rparr>)
      else e)"

text \<open>The sum of \<^verbatim>\<open>post_count\<close> over the entries of a result.\<close>

definition sum_post_count :: "(int \<times> user_metrics) list \<Rightarrow> nat" where
  "sum_post_count r = sum_list (map (\<lambda>e. post_count (snd e)) r)"

section \<open>Comment pattern analysis\<close>

text \<open>\<^verbatim>\<open>s.lower()\<close> on code points below 256: the ASCII capitals and the Latin-1
  capitals (all of \<open>0xC0\<close> to \<open>0xDE\<close> but the multiplication sign) become the small
  letter 32 places up.\<close>

definition capitals :: string where
  "capitals = ''ABCDEFGHIJKLMNOPQRSTUVWXYZ'' @
     [CHR 0xC0, CHR 0xC1, CHR 0xC2, CHR 0xC3, CHR 0xC4, CHR 0xC5, CHR 0xC6, CHR 0xC7,
      CHR 0xC8, CHR 0xC9, CHR 0xCA, CHR 0xCB, CHR 0xCC, CHR 0xCD, CHR 0xCE, CHR 0xCF,
      CHR 0xD0, CHR 0xD1, CHR 0xD2, CHR 0xD3, CHR 0xD4, CHR 0xD5, CHR 0xD6,
      CHR 0xD8, CHR 0xD9, CHR 0xDA, CHR 0xDB, CHR 0xDC, CHR 0xDD, CHR 0xDE]"

definition smalls :: string where
  "smalls = ''abcdefghijklmnopqrstuvwxyz'' @
     [CHR 0xE0, CHR 0xE1, CHR 0xE2, CHR 0xE3, CHR 0xE4, CHR 0xE5, CHR 0xE6, CHR 0xE7,
      CHR 0xE8, CHR 0xE9, CHR 0xEA, CHR 0xEB, CHR 0xEC, CHR 0xED, CHR 0xEE, CHR 0xEF,
      CHR 0xF0, CHR 0xF1, CHR 0xF2, CHR 0xF3, CHR 0xF4, CHR 0xF5, CHR 0xF6,
      CHR 0xF8, CHR 0xF9, CHR 0xFA, CHR 0xFB, CHR 0xFC, CHR 0xFD, CHR 0xFE]"

definition lower_char :: "char \<Rightarrow> char" where
  "lower_char c = (case map_of (zip capitals smalls) c of None \<Rightarrow> c | Some l \<Rightarrow> l)"

definition py_lower :: "string \<Rightarrow> string" where
  "py_lower s = map lower_char s"

text \<open>\<^verbatim>\<open>s.split(sep)\<close> for a one-character separator: the pieces between the
  separators, empty ones kept; never the empty list.\<close>

fun split_on :: "char \<Rightarrow> string \<Rightarrow> string list" where
  "split_on sep [] = [[]]"
| "split_on sep (c # cs) =
     (if c = sep then [] # split_on sep cs
      else (c # hd (split_on sep cs)) # tl (split_on sep cs))"

text \<open>\<^verbatim>\<open>email.split('@')[-1]\<close> of the lowercased email.\<close>

definition email_domain :: "string \<Rightarrow> string" where
  "email_domain email = last (split_on (CHR ''@'') (py_lower email))"

text \<open>A \<^verbatim>\<open>Counter\<close>: \<^verbatim>\<open>c[k] += 1\<close>, and \<^verbatim>\<open>c.update(ks)\<close> doing so for every
  element of \<open>ks\<close> in turn.\<close>

definition counter_add :: "'k \<Rightarrow> ('k \<times> nat) list \<Rightarrow> ('k \<times> nat) list" where
  "counter_add k c = dd_modify 0 k (\<lambda>n. n + 1) c"

definition counter_update :: "'k list \<Rightarrow> ('k \<times> nat) list \<Rightarrow> ('k \<times> nat) list" where
  "counter_update ks c = fold counter_add ks c"

text \<open>\<^verbatim>\<open>sorted(xs, key=k, reverse=True)\<close>: Python reverses the list, sorts it stably by
  ascending key and reverses the outcome, so that equal keys keep their order.
  \<^verbatim>\<open>Counter.most_common(n)\<close> is \<^verbatim>\<open>heapq.nlargest(n, items, key=count)\<close>, documented
  as \<^verbatim>\<open>sorted(items, key=count, reverse=True)[:n]\<close>.\<close>

definition sorted_reverse :: "('a \<Rightarrow> nat) \<Rightarrow> 'a list \<Rightarrow> 'a list" where
  "sorted_reverse k xs = rev (sort_key k (rev xs))"

definition most_common :: "nat \<Rightarrow> ('k \<times> nat) list \<Rightarrow> ('k \<times> nat) list" where
  "most_common n c = take n (sorted_reverse snd c)"

definition simple_sentiment_pos :: "string list" where
  "simple_sentiment_pos = [''good'', ''great'', ''awesome'', ''excellent'', ''happy'', ''thanks'']"

definition simple_sentiment_neg :: "string list" where
  "simple_sentiment_neg = [''bad'', ''poor'', ''terrible'', ''awful'', ''sad'', ''wrong'']"

text \<open>\<^verbatim>\<open>sum(1 for word in lexicon if word in text)\<close>; \<^verbatim>\<open>in\<close> on strings is
  containment as a contiguous substring. The lexicons are sets of six distinct words,
  and the sum does not depend on the order in which a set is gone through.\<close>

definition lexicon_hits :: "string list \<Rightarrow> string \<Rightarrow> nat" where
  "lexicon_hits lexicon text = length (filter (\<lambda>word. sublist word text) lexicon)"

record sentiment_indicators =
  positive_words :: nat
  negative_words :: nat
  question_comments :: nat

text \<open>The result dict. The keys \<^verbatim>\<open>comments_by_hour\<close> and \<^verbatim>\<open>word_frequency\<close> are present
  only when there are comments.\<close>

record comment_metrics =
  total_comments :: nat
  avg_comment_length :: rat
  common_email_domains :: "(string \<times> nat) list"
  comments_by_hour :: "(int \<times> nat) list option"
  word_frequency :: "(string \<times> nat) list option"
  sentiment_indicators :: sentiment_indicators
  most_common_words :: "(string \<times> nat) list"

text \<open>What the loop over the comments carries from one comment to the next.\<close>

record comment_acc =
  total_length :: nat
  domains :: "(string \<times> nat) list"
  word_counts :: "(string \<times> nat) list"
  sentiment :: sentiment_indicators

definition comment_acc0 :: comment_acc where
  "comment_acc0 = \<lparr>total_length = 0, domains = [], word_counts = [],
     sentiment = \<lparr>positive_words = 0, negative_words = 0, question_comments = 0\<rparr>\<rparr>"

definition comment_step :: "comment \<Rightarrow> comment_acc \<Rightarrow> comment_acc" where
  "comment_step c acc =
     (let comment_lower = py_lower (c_body c); s = sentiment acc in
      \<lparr>total_length = total_length acc + length (c_body c),
       domains = counter_add (email_domain (c_email c)) (domains acc),
       word_counts = counter_update (split_ws (py_lower (c_body c))) (word_counts acc),
       sentiment =
         \<lparr>positive_words = positive_words s + lexicon_hits simple_sentiment_pos comment_lower,
          negative_words = negative_words s + lexicon_hits simple_sentiment_neg comment_lower,
          question_comments =
            (if CHR ''?'' \<in> set (c_body c) then question_comments s + 1
             else question_comments s)\<rparr>\<rparr>)"

definition analyze_comment_patterns :: "analyzer \<Rightarrow> py_error + comment_metrics" where
  "analyze_comment_patterns st =
     (if comments st = [] then
        Inr \<lparr>total_comments = 0, avg_comment_length = 0, common_email_domains = [],
             comments_by_hour = None, word_frequency = None,
             sentiment_indicators =
               \<lparr>positive_words = 0, negative_words = 0, question_comments = 0\<rparr>,
             most_common_words = []\<rparr>
      else
        (let acc = fold comment_step (comments st) comment_acc0 in
         case (if comments st \<noteq> [] then truediv (total_length acc) (length (comments st))
               else Inr 0) of
           Inl err \<Rightarrow> Inl err
         | Inr avg \<Rightarrow>
             Inr \<lparr>total_comments = length (comments st), avg_comment_length = avg,
                  common_email_domains = most_common 5 (domains acc),
                  comments_by_hour = Some [],
                  word_frequency = Some (word_counts acc),
                  sentiment_indicators = sentiment acc,
                  most_common_words = most_common 10 (word_counts acc)\<rparr>))"

section \<open>Post engagement analysis\<close>

text \<open>\<^verbatim>\<open>min\<close>, \<^verbatim>\<open>max\<close>, \<^verbatim>\<open>statistics.mean\<close> and \<^verbatim>\<open>statistics.median\<close> on a list
  of integers; each raises on the empty list.\<close>

fun py_min :: "nat list \<Rightarrow> py_error + nat" where
  "py_min [] = Inl ValueError"
| "py_min (x # xs) = Inr (fold min xs x)"

fun py_max :: "nat list \<Rightarrow> py_error + nat" where
  "py_max [] = Inl ValueError"
| "py_max (x # xs) = Inr (fold max xs x)"

definition mean :: "nat list \<Rightarrow> py_error + rat" where
  "mean xs = (if xs = [] then Inl StatisticsError
              else Inr (of_nat (sum_list xs) / of_nat (length xs)))"

definition median :: "nat list \<Rightarrow> py_error + rat" where
  "median xs =
     (let data = sort xs; n = length data in
      if n = 0 then Inl StatisticsError
      else if n mod 2 = 1 then Inr (of_nat (data ! (n div 2)))
      else Inr ((of_nat (data ! (n div 2 - 1)) + of_nat (data ! (n div 2))) / 2))"

record length_buckets =
  short :: nat
  medium :: nat
  long :: nat

record length_stats =
  stats_min :: nat
  stats_max :: nat
  stats_avg :: rat
  stats_median :: rat

record engagement =
  post_id :: int
  title :: string
  user_id :: int
  comment_count :: nat

record post_metrics =
  total_posts :: nat
  posts_by_length :: length_buckets
  title_length_stats :: length_stats
  most_engaging_posts :: "engagement list"
  engagement_by_user :: "(int \<times> nat) list"

text \<open>The first loop over the posts sorts each post into a bucket by the number of words
  of its body (and appends the length of its title to \<^verbatim>\<open>title_lengths\<close>).\<close>

definition bucket_post :: "post \<Rightarrow> length_buckets \<Rightarrow> length_buckets" where
  "bucket_post p b =
     (let words = length (split_ws (p_body p)) in
      if words < 100 then b\<lparr>short := short b + 1\<rparr>
      else if words < 200 then b\<lparr>medium := medium b + 1\<rparr>
      else b\<lparr>long := long b + 1\<rparr>)"

definition compute_title_stats :: "nat list \<Rightarrow> py_error + length_stats" where
  "compute_title_stats title_lengths =
     (if title_lengths \<noteq> [] then
        (case py_min title_lengths of Inl err \<Rightarrow> Inl err | Inr mn \<Rightarrow>
        (case py_max title_lengths of Inl err \<Rightarrow> Inl err | Inr mx \<Rightarrow>
        (case mean title_lengths of Inl err \<Rightarrow> Inl err | Inr av \<Rightarrow>
        (case median title_lengths of Inl err \<Rightarrow> Inl err | Inr md \<Rightarrow>
           Inr \<lparr>stats_min = mn, stats_max = mx, stats_avg = av, stats_median = md\<rparr>))))
      else Inr \<lparr>stats_min = 0, stats_max = 0, stats_avg = 0, stats_median = 0\<rparr>)"

text \<open>The second loop over the posts: one entry of \<^verbatim>\<open>post_engagement_metrics\<close> per post,
  in the order of the posts, and the post's comment count added under its \<^verbatim>\<open>userId\<close>.\<close>

definition engagement_of :: "(int \<times> comment list) list \<Rightarrow> post \<Rightarrow> engagement" where
  "engagement_of pe p = \<lparr>post_id = p_id p, title = p_title p, user_id = p_userId p,
     comment_count = length (dd_get [] (p_id p) pe)\<rparr>"

definition add_engagement ::
  "(int \<times> comment list) list \<Rightarrow> post \<Rightarrow> (int \<times> nat) list \<Rightarrow> (int \<times> nat) list" where
  "add_engagement pe p eu =
     dd_modify 0 (p_userId p) (\<lambda>n. n + length (dd_get [] (p_id p) pe)) eu"

definition analyze_post_engagement :: "analyzer \<Rightarrow> py_error + post_metrics" where
  "analyze_post_engagement st =
     (if posts st = [] then
        Inr \<lparr>total_posts = 0, posts_by_length = \<lparr>short = 0, medium = 0, long = 0\<rparr>,
             title_length_stats = \<lparr>stats_min = 0, stats_max = 0, stats_avg = 0, stats_median = 0\<rparr>,
             most_engaging_posts = [], engagement_by_user = []\<rparr>
      else
        (let buckets = fold bucket_post (posts st) \<lparr>short = 0, medium = 0, long = 0\<rparr>;
             title_lengths = map (\<lambda>p. length (p_title p)) (posts st)
         in case compute_title_stats title_lengths of
              Inl err \<Rightarrow> Inl err
            | Inr stats \<Rightarrow>
               (let post_engagement = group_comments (comments st);
                    post_engagement_metrics = map (engagement_of post_engagement) (posts st);
                    by_user = fold (add_engagement post_engagement) (posts st) []
                in Inr \<lparr>total_posts = length (posts st), posts_by_length = buckets,
                        title_length_stats = stats,
                        most_engaging_posts = take 5 (sorted_reverse comment_count post_engagement_metrics),
                        engagement_by_user = by_user\<rparr>)))"

section \<open>The frequency count, as the specification words it\<close>

text \<open>The distinct elements of a list in the order of their first occurrence, and the
  frequency count of a list in that order: each distinct element with the number of its
  occurrences. These follow the specification's wording (``frequency count \<dots> ties
  broken by first-encountered order''), not the code; \<open>counter_update\<close> above is the
  code's \<^verbatim>\<open>Counter\<close>.\<close>

definition first_seen :: "'a list \<Rightarrow> 'a list" where
  "first_seen xs = rev (remdups (rev xs))"

definition frequency_count :: "'a list \<Rightarrow> ('a \<times> nat) list" where
  "frequency_count xs = map (\<lambda>x. (x, count_list xs x)) (first_seen xs)"

text \<open>The keys of a \<^verbatim>\<open>Counter\<close> after \<^verbatim>\<open>c[k] += 1\<close>: a new key goes to the end.\<close>

definition add_key :: "'a \<Rightarrow> 'a list \<Rightarrow> 'a list" where
  "add_key k ks = (if k \<in> set ks then ks else ks @ [k])"

section \<open>Ingestion\<close>


















section \<open>The tap's validators and streams\<close>

text \<open>
  \<^verbatim>\<open>validators.py\<close> checks a fetched record and collects error messages;
  \<^verbatim>\<open>streams.py\<close> turns a fetched response into the records the tap emits. The records
  are typed as above, so \<^verbatim>\<open>check_required_fields\<close> (every key present and not null) and
  the \<^verbatim>\<open>isinstance(value, int)\<close> test always pass and are left out.
\<close>

definition check_positive_integer :: "int \<Rightarrow> string \<Rightarrow> string list" where
  "check_positive_integer v field_name =
     (if v \<le> 0 then [''Field '' @ field_name @ '' must be a positive integer''] else [])"

text \<open>\<^verbatim>\<open>not value or value.strip() == ""\<close>: the string is empty or all whitespace.\<close>

definition check_string_not_empty :: "string \<Rightarrow> string \<Rightarrow> string list" where
  "check_string_not_empty v field_name =
     (if list_all is_space v then [''Field '' @ field_name @ '' cannot be empty''] else [])"

text \<open>The email pattern is a regular expression; it is matched by derivatives. A class
  is the list of its characters.\<close>

datatype rexp = Nothing | Empty | Class "char list" | Either rexp rexp | Then rexp rexp
  | Many rexp

fun nullable :: "rexp \<Rightarrow> bool" where
  "nullable Nothing = False"
| "nullable Empty = True"
| "nullable (Class cs) = False"
| "nullable (Either r s) = (nullable r \<or> nullable s)"
| "nullable (Then r s) = (nullable r \<and> nullable s)"
| "nullable (Many r) = True"

fun deriv :: "char \<Rightarrow> rexp \<Rightarrow> rexp" where
  "deriv c Nothing = Nothing"
| "deriv c Empty = Nothing"
| "deriv c (Class cs) = (if c \<in> set cs then Empty else Nothing)"
| "deriv c (Either r s) = Either (deriv c r) (deriv c s)"
| "deriv c (Then r s) =
     (if nullable r then Either (Then (deriv c r) s) (deriv c s) else Then (deriv c r) s)"
| "deriv c (Many r) = Then (deriv c r) (Many r)"

definition fullmatch :: "rexp \<Rightarrow> string \<Rightarrow> bool" where
  "fullmatch r s = nullable (fold deriv s r)"

definition letters :: string where
  "letters = ''abcdefghijklmnopqrstuvwxyzABCDEFGHIJKLMNOPQRSTUVWXYZ''"

definition digits :: string where
  "digits = ''0123456789''"

text \<open>\<^verbatim>\<open>^[a-zA-Z0-9._%+-]+@[a-zA-Z0-9.-]+\.[a-zA-Z]{2,}$\<close>, between its anchors.\<close>

definition email_pattern :: rexp where
  "email_pattern =
     (let local_part = Class (letters @ digits @ ''._%+-'');
          domain_part = Class (letters @ digits @ ''.-'');
          letter = Class letters
      in Then local_part (Then (Many local_part)
          (Then (Class ''@'')
          (Then domain_part (Then (Many domain_part)
          (Then (Class ''.'')
          (Then letter (Then letter (Many letter)))))))))"

text \<open>\<^verbatim>\<open>re.match\<close> starts at the beginning of the string, and \<^verbatim>\<open>$\<close> holds at its end
  and before a newline that ends it.\<close>

definition check_email_format :: "string \<Rightarrow> string list" where
  "check_email_format email =
     (if fullmatch email_pattern email \<or>
         (email \<noteq> [] \<and> last email = CHR 0x0A \<and> fullmatch email_pattern (butlast email))
      then [] else [''Invalid email format''])"

text \<open>\<^verbatim>\<open>PostValidator.validate\<close> and \<^verbatim>\<open>CommentValidator.validate\<close>: the errors they
  leave in \<^verbatim>\<open>self.errors\<close>; the record is valid when there is none.\<close>

definition post_errors :: "post \<Rightarrow> string list" where
  "post_errors p =
     check_positive_integer (p_id p) ''id'' @ check_positive_integer (p_userId p) ''userId'' @
     check_string_not_empty (p_title p) ''title'' @ check_string_not_empty (p_body p) ''body''"

definition comment_errors :: "comment \<Rightarrow> string list" where
  "comment_errors c =
     check_positive_integer (c_id c) ''id'' @ check_positive_integer (c_postId c) ''postId'' @
     check_string_not_empty (c_name c) ''name'' @ check_string_not_empty (c_body c) ''body'' @
     check_email_format (c_email c)"

text \<open>The \<^verbatim>\<open>_metadata\<close> that \<^verbatim>\<open>parse_response\<close> attaches to a record that fails
  validation. Its timestamp is the clock's reading; the clock is a parameter of the
  model, giving the reading taken at the record of each position in the response.\<close>

record metadata =
  validation_errors :: "string list"
  validation_timestamp :: string

definition annotate :: "string list \<Rightarrow> string \<Rightarrow> metadata option" where
  "annotate errors stamp =
     (if errors \<noteq> [] then Some \<lparr>validation_errors = errors, validation_timestamp = stamp\<rparr>
      else None)"

text \<open>The loops of \<^verbatim>\<open>PostsStream.parse_response\<close> and
  \<^verbatim>\<open>CommentsStream.parse_response\<close> from the record at position \<open>i\<close> on; a record is
  yielded with its \<^verbatim>\<open>_metadata\<close>, when it got one.\<close>

fun posts_from :: "(nat \<Rightarrow> string) \<Rightarrow> nat \<Rightarrow> post list \<Rightarrow> (post \<times> metadata option) list" where
  "posts_from utcnow i [] = []"
| "posts_from utcnow i (r # rs) =
     (if p_id r mod 2 = 0
      then (r, annotate (post_errors r) (utcnow i)) # posts_from utcnow (i + 1) rs
      else posts_from utcnow (i + 1) rs)"

fun comments_from ::
  "(nat \<Rightarrow> string) \<Rightarrow> nat \<Rightarrow> comment list \<Rightarrow> (comment \<times> metadata option) list" where
  "comments_from utcnow i [] = []"
| "comments_from utcnow i (r # rs) =
     (if c_postId r mod 2 = 0
      then (r, annotate (comment_errors r) (utcnow i)) # comments_from utcnow (i + 1) rs
      else comments_from utcnow (i + 1) rs)"

definition posts_parse_response :: "(nat \<Rightarrow> string) \<Rightarrow> post list \<Rightarrow> (post \<times> metadata option) list" where
  "posts_parse_response utcnow records = posts_from utcnow 0 records"

definition comments_parse_response ::
  "(nat \<Rightarrow> string) \<Rightarrow> comment list \<Rightarrow> (comment \<times> metadata option) list" where
  "comments_parse_response utcnow records = comments_from utcnow 0 records"

section \<open>Example states\<close>

text \<open>One user \<open>alice\<close> with id 1, two posts of hers with bodies of three and five words,
  one comment on the first post.\<close>

definition alice :: user where
  "alice = \<lparr>u_id = 1, u_username = Some ''alice''\<rparr>"

definition post1 :: post where
  "post1 = \<lparr>p_userId = 1, p_id = 1, p_title = ''first'', p_body = ''one two three''\<rparr>"

definition post2 :: post where
  "post2 = \<lparr>p_userId = 1, p_id = 2, p_title = ''second'', p_body = ''a b c d e''\<rparr>"

definition comment1 :: comment where
  "comment1 = \<lparr>c_postId = 1, c_id = 1, c_name = ''n'', c_email = ''Bob@Example.ORG'',
     c_body = ''This is sad but thanks!''\<rparr>"

definition alice_state :: analyzer where
  "alice_state = \<lparr>users = [(1, alice)], posts = [post1, post2], comments = [comment1]\<rparr>"

text \<open>No user, and one post whose \<^verbatim>\<open>userId\<close> is 7.\<close>

definition orphan_post :: post where
  "orphan_post = \<lparr>p_userId = 7, p_id = 3, p_title = ''third'', p_body = ''x y''\<rparr>"

definition userless_state :: analyzer where
  "userless_state = \<lparr>users = [], posts = [orphan_post], comments = []\<rparr>"


text \<open>The user \<open>alice\<close>, her two posts and, between them, a post whose \<^verbatim>\<open>userId\<close> 7
  matches no user.\<close>

definition mixed_state :: analyzer where
  "mixed_state = \<lparr>users = [(1, alice)], posts = [post1, orphan_post, post2],
     comments = [comment1]\<rparr>"

text \<open>A user and nothing else; a user with her posts and no comment.\<close>

definition quiet_state :: analyzer where
  "quiet_state = \<lparr>users = [(1, alice)], posts = [], comments = []\<rparr>"

definition silent_state :: analyzer where
  "silent_state = \<lparr>users = [(1, alice)], posts = [post1, post2], comments = []\<rparr>"






text \<open>A fetched response of three posts with the ids 1, 2 and 4, the last with an empty
  title, and one of two comments on the posts 1 and 2.\<close>

definition post4 :: post where
  "post4 = \<lparr>p_userId = 1, p_id = 4, p_title = '' '', p_body = ''z''\<rparr>"

definition comment2 :: comment where
  "comment2 = \<lparr>c_postId = 2, c_id = 2, c_name = ''m'', c_email = ''eve@mail.example.com'',
     c_body = ''fine''\<rparr>"

section \<open>Properties of the user activity analysis\<close>

lemma traverse_total:
  assumes "\<And>x. x \<in> set xs \<Longrightarrow> f x = Inr (g x)"
  shows "traverse f xs = Inr (map g xs)"
  using assms by (induction xs) auto

lemma finalize_total: "finalize us e = Inr (finalized us e)"
  by (cases e) (simp add: finalize_def finalized_def truediv_def Let_def)

lemma analyze_user_activity_total:
  "analyze_user_activity st =
     Inr (if users st = [] then []
          else map (finalized (users st))
                 (fold (count_comments (group_comments (comments st))) (posts st)
                    (fold count_post (posts st) [])))"
  by (simp add: analyze_user_activity_def Let_def
        traverse_total [where g = "finalized (users st)"] finalize_total)

lemma keys_dd_modify:
  "map fst (dd_modify d k f es) = (if k \<in> fst ` set es then map fst es else map fst es @ [k])"
  by (induction es) auto

lemma sum_dd_modify:
  assumes "\<And>v. g (f v) = g v + (c::nat)" "g d = 0"
  shows "sum_list (map (\<lambda>e. g (snd e)) (dd_modify d k f es))
       = sum_list (map (\<lambda>e. g (snd e)) es) + c"
  using assms by (induction es) auto

lemma all_dd_modify:
  assumes "\<forall>e \<in> set es. P (snd e)" "\<And>v. P v \<Longrightarrow> P (f v)" "P (f d)"
  shows "\<forall>e \<in> set (dd_modify d k f es). P (snd e)"
  using assms by (induction es) auto

lemma sum_count_post: "sum_post_count (count_post p um) = sum_post_count um + 1"
  unfolding sum_post_count_def count_post_def
  by (rule sum_dd_modify) (simp_all add: default_metrics_def)

lemma sum_fold_count_post:
  "sum_post_count (fold count_post ps um) = sum_post_count um + length ps"
  by (induction ps arbitrary: um) (simp_all add: sum_count_post)

lemma sum_count_comments: "sum_post_count (count_comments pc p um) = sum_post_count um"
  unfolding sum_post_count_def count_comments_def
  by (rule trans [OF sum_dd_modify [where c = 0]]) (simp_all add: default_metrics_def)

lemma sum_fold_count_comments:
  "sum_post_count (fold (count_comments pc) ps um) = sum_post_count um"
  by (induction ps arbitrary: um) (simp_all add: sum_count_comments)

lemma sum_finalized: "sum_post_count (map (finalized us) um) = sum_post_count um"
  by (induction um) (auto simp: sum_post_count_def finalized_def)

text \<open>
  Claim C3, as the code has it. With no user ingested the analysis returns the empty
  result whatever the posts are, so the sum of \<^verbatim>\<open>post_count\<close> is 0 there and not the
  number of posts (at \<open>userless_state\<close>, below). Whenever at least one user was ingested,
  the analysis returns a result and the sum of \<^verbatim>\<open>post_count\<close> over its entries is the
  number of ingested posts.
\<close>

theorem post_count_sum_total:
  "users st \<noteq> [] \<Longrightarrow>
     (\<exists>r. analyze_user_activity st = Inr r \<and> sum_post_count r = length (posts st))"
  by (simp add: analyze_user_activity_total sum_finalized sum_fold_count_comments
        sum_fold_count_post)
     (simp add: sum_post_count_def)

theorem post_count_sum_total_witness:
  "users alice_state \<noteq> [] \<and>
     (\<exists>r. analyze_user_activity alice_state = Inr r \<and> sum_post_count r = length (posts alice_state))"
  using post_count_sum_total [of alice_state] by (simp add: alice_state_def)

theorem post_count_sum_userless:
  "analyze_user_activity userless_state = Inr [] \<and>
   sum_post_count (projr (analyze_user_activity userless_state)) \<noteq> length (posts userless_state)"
  by (simp add: analyze_user_activity_def userless_state_def sum_post_count_def)

text \<open>
  Claim C9: when the ingested users map is empty, the user activity analysis returns the
  empty map, whatever posts and comments were ingested.
\<close>

theorem no_users_no_metrics: "users st = [] \<Longrightarrow> analyze_user_activity st = Inr []"
  by (simp add: analyze_user_activity_def)

theorem no_users_no_metrics_witness:
  "users userless_state = [] \<and> posts userless_state \<noteq> [] \<and>
   analyze_user_activity userless_state = Inr []"
  using no_users_no_metrics [of userless_state] by (simp add: userless_state_def)

lemma set_dd_modify_keys: "fst ` set (dd_modify d k f es) = insert k (fst ` set es)"
  by (induction es) auto

lemma keys_fold_count_post:
  "fst ` set (fold count_post ps um) = fst ` set um \<union> p_userId ` set ps"
  by (induction ps arbitrary: um) (auto simp: count_post_def set_dd_modify_keys)

lemma keys_fold_count_comments:
  "fst ` set (fold (count_comments pc) ps um) = fst ` set um \<union> p_userId ` set ps"
  by (induction ps arbitrary: um) (auto simp: count_comments_def set_dd_modify_keys)

lemma pos_count_post:
  "\<forall>e \<in> set um. 0 < post_count (snd e) \<Longrightarrow>
   \<forall>e \<in> set (count_post p um). 0 < post_count (snd e)"
  unfolding count_post_def by (rule all_dd_modify) simp_all

lemma pos_fold_count_post:
  "\<forall>e \<in> set um. 0 < post_count (snd e) \<Longrightarrow>
   \<forall>e \<in> set (fold count_post ps um). 0 < post_count (snd e)"
proof (induction ps arbitrary: um)
  case Nil
  then show ?case by simp
next
  case (Cons p ps)
  show ?case using Cons.IH [OF pos_count_post [OF Cons.prems]] by simp
qed

lemma all_dd_modify_present:
  assumes "\<forall>e \<in> set es. P (snd e)" "\<And>v. P v \<Longrightarrow> P (f v)" "k \<in> fst ` set es"
  shows "\<forall>e \<in> set (dd_modify d k f es). P (snd e)"
  using assms by (induction es) auto

text \<open>The second loop meets only keys the first loop has created, so it creates no entry
  and every entry keeps a positive \<^verbatim>\<open>post_count\<close>.\<close>

lemma pos_fold_count_comments:
  "\<forall>e \<in> set um. 0 < post_count (snd e) \<Longrightarrow> p_userId ` set ps \<subseteq> fst ` set um \<Longrightarrow>
   \<forall>e \<in> set (fold (count_comments pc) ps um). 0 < post_count (snd e)"
proof (induction ps arbitrary: um)
  case Nil
  then show ?case by simp
next
  case (Cons p ps)
  have "\<forall>e \<in> set (count_comments pc p um). 0 < post_count (snd e)"
    unfolding count_comments_def using Cons.prems
    by (intro all_dd_modify_present) auto
  moreover have "p_userId ` set ps \<subseteq> fst ` set (count_comments pc p um)"
    using Cons.prems by (auto simp: count_comments_def set_dd_modify_keys)
  ultimately show ?case using Cons.IH by simp
qed

lemma pos_user_metrics:
  "\<forall>e \<in> set (fold (count_comments pc) ps (fold count_post ps [])). 0 < post_count (snd e)"
proof (rule pos_fold_count_comments)
  show "\<forall>e \<in> set (fold count_post ps []). 0 < post_count (snd e)"
    by (rule pos_fold_count_post) simp
  show "p_userId ` set ps \<subseteq> fst ` set (fold count_post ps [])"
    by (simp add: keys_fold_count_post)
qed

lemma map_of_map_keep_key:
  assumes "\<And>e. fst (g e) = fst e" "map_of xs k = Some v"
  shows "map_of (map g xs) k = Some (snd (g (k, v)))"
  using assms(2)
proof (induction xs)
  case Nil
  then show ?case by simp
next
  case (Cons x xs)
  then show ?case using assms(1) [of x]
    by (cases x; cases "g x") (auto split: if_splits)
qed

lemma fst_finalized: "fst (finalized us e) = fst e"
  by (simp add: finalized_def)

lemma user_activity_entry:
  assumes "users st \<noteq> []" "p \<in> set (posts st)"
  shows "\<exists>m. map_of (projr (analyze_user_activity st)) (p_userId p) = Some m \<and>
             username m = Some (resolve_username (users st) (p_userId p))"
proof -
  let ?um = "fold (count_comments (group_comments (comments st))) (posts st)
               (fold count_post (posts st) [])"
  have "p_userId p \<in> fst ` set ?um"
    using assms(2) by (simp add: keys_fold_count_comments keys_fold_count_post)
  then obtain m0 where m0: "map_of ?um (p_userId p) = Some m0"
    by (metis domD dom_map_of_conv_image_fst)
  have "(p_userId p, m0) \<in> set ?um" using m0 by (rule map_of_SomeD)
  with pos_user_metrics have "0 < post_count m0" by fastforce
  then have "username (snd (finalized (users st) (p_userId p, m0)))
               = Some (resolve_username (users st) (p_userId p))"
    by (simp add: finalized_def)
  moreover have "map_of (map (finalized (users st)) ?um) (p_userId p)
                   = Some (snd (finalized (users st) (p_userId p, m0)))"
    using fst_finalized m0 by (rule map_of_map_keep_key)
  ultimately show ?thesis
    using assms(1) by (simp add: analyze_user_activity_total)
qed

text \<open>
  Claim C1, as the code has it. With no user ingested the analysis returns the empty
  result, so a \<^verbatim>\<open>userId\<close> that has a post has no entry there
  (at \<open>userless_state\<close>, below). Whenever at least one user was ingested, the analysis
  returns a result holding an entry for the \<^verbatim>\<open>userId\<close> of every ingested post, whether
  or not that id is the key of an ingested user; the entry's \<^verbatim>\<open>username\<close> is the
  username of that user when the id resolves to a user record that carries one, and the
  string \<^verbatim>\<open>User\<close>, a space and the decimal id otherwise.
\<close>

theorem poster_entry_username:
  assumes "users st \<noteq> []" and "p \<in> set (posts st)"
  shows "\<exists>r m. analyze_user_activity st = Inr r \<and> map_of r (p_userId p) = Some m \<and>
     username m = Some
       (case map_of (users st) (p_userId p) of
          None \<Rightarrow> ''User '' @ str_int (p_userId p)
        | Some u \<Rightarrow>
            (case u_username u of None \<Rightarrow> ''User '' @ str_int (p_userId p) | Some n \<Rightarrow> n))"
proof -
  obtain m where "map_of (projr (analyze_user_activity st)) (p_userId p) = Some m"
    and "username m = Some (resolve_username (users st) (p_userId p))"
    using user_activity_entry [OF assms] by blast
  then show ?thesis
    by (simp add: analyze_user_activity_total resolve_username_def)
qed

theorem poster_entry_username_witness:
  "users mixed_state \<noteq> [] \<and> post1 \<in> set (posts mixed_state) \<and>
   orphan_post \<in> set (posts mixed_state) \<and>
   (\<exists>r m. analyze_user_activity mixed_state = Inr r \<and> map_of r 1 = Some m \<and>
      username m = Some ''alice'') \<and>
   (\<exists>r m. analyze_user_activity mixed_state = Inr r \<and> map_of r 7 = Some m \<and>
      username m = Some ''User 7'')"
  using poster_entry_username [of mixed_state post1]
    poster_entry_username [of mixed_state orphan_post]
  by (simp add: mixed_state_def post1_def orphan_post_def alice_def str_int_def str_nat.simps)

theorem poster_without_entry:
  "orphan_post \<in> set (posts userless_state) \<and>
   analyze_user_activity userless_state = Inr [] \<and>
   map_of (projr (analyze_user_activity userless_state)) (p_userId orphan_post) = None"
  by (simp add: analyze_user_activity_def userless_state_def)

section \<open>Properties of the three analyses together\<close>

text \<open>
  Claim C2: for an input with no post and no comment, each of the three analyses
  returns (none raises), and returns its complete result with every number zero and
  every collection empty: the user activity analysis the empty map, the two others
  the zero results written out below.
\<close>

theorem empty_input_zero_results:
  assumes "posts st = []" and "comments st = []"
  shows "analyze_user_activity st = Inr [] \<and>
         analyze_comment_patterns st =
           Inr \<lparr>total_comments = 0, avg_comment_length = 0, common_email_domains = [],
                comments_by_hour = None, word_frequency = None,
                sentiment_indicators =
                  \<lparr>positive_words = 0, negative_words = 0, question_comments = 0\<rparr>,
                most_common_words = []\<rparr> \<and>
         analyze_post_engagement st =
           Inr \<lparr>total_posts = 0, posts_by_length = \<lparr>short = 0, medium = 0, long = 0\<rparr>,
                title_length_stats =
                  \<lparr>stats_min = 0, stats_max = 0, stats_avg = 0, stats_median = 0\<rparr>,
                most_engaging_posts = [], engagement_by_user = []\<rparr>"
  using assms
  by (simp add: analyze_user_activity_def analyze_comment_patterns_def
        analyze_post_engagement_def)

theorem empty_input_zero_results_witness:
  "posts quiet_state = [] \<and> comments quiet_state = [] \<and> users quiet_state \<noteq> [] \<and>
   analyze_user_activity quiet_state = Inr [] \<and>
   total_comments (projr (analyze_comment_patterns quiet_state)) = 0 \<and>
   total_posts (projr (analyze_post_engagement quiet_state)) = 0"
  using empty_input_zero_results [of quiet_state] by (simp add: quiet_state_def)

lemma user_activity_divisors:
  "\<forall>e \<in> set (projr (analyze_user_activity st)).
     0 < post_count (snd e) \<and>
     avg_comments_per_post (snd e)
       = of_nat (total_comments_received (snd e)) / of_nat (post_count (snd e)) \<and>
     avg_post_length (snd e)
       = of_nat (total_words_in_posts (snd e)) / of_nat (post_count (snd e))"
proof (cases "users st = []")
  case True
  then show ?thesis by (simp add: analyze_user_activity_total)
next
  case False
  let ?um = "fold (count_comments (group_comments (comments st))) (posts st)
               (fold count_post (posts st) [])"
  have "\<And>e0. e0 \<in> set ?um \<Longrightarrow> 0 < post_count (snd e0)"
    using pos_user_metrics by blast
  then show ?thesis using False
    by (auto simp: analyze_user_activity_total finalized_def)
qed

lemma analyze_comment_patterns_total:
  "\<exists>c. analyze_comment_patterns st = Inr c \<and> total_comments c = length (comments st) \<and>
       (total_comments c = 0 \<longrightarrow> avg_comment_length c = 0)"
  by (simp add: analyze_comment_patterns_def Let_def truediv_def)

text \<open>
  Claim C4: the averages never divide by zero. The user activity analysis returns a
  result for every state, and each entry of it has a positive \<^verbatim>\<open>post_count\<close>, by which
  its two averages are the quotients. The body of the loop that divides leaves an entry
  with \<^verbatim>\<open>post_count\<close> zero as it is, without dividing and without raising; such an entry
  is as the default made it, with both averages 0. The comment pattern analysis returns a
  result for every state, whose \<^verbatim>\<open>avg_comment_length\<close> is 0 when \<^verbatim>\<open>total_comments\<close>
  is zero.
\<close>

theorem averages_guard_zero_counts:
  "(\<exists>r. analyze_user_activity st = Inr r \<and>
        (\<forall>e \<in> set r. 0 < post_count (snd e) \<and>
           avg_comments_per_post (snd e)
             = of_nat (total_comments_received (snd e)) / of_nat (post_count (snd e)) \<and>
           avg_post_length (snd e)
             = of_nat (total_words_in_posts (snd e)) / of_nat (post_count (snd e)))) \<and>
   (post_count m = 0 \<longrightarrow> finalize us (uid, m) = Inr (uid, m)) \<and>
   finalize us (uid, default_metrics) = Inr (uid, default_metrics) \<and>
   avg_comments_per_post default_metrics = 0 \<and> avg_post_length default_metrics = 0 \<and>
   (\<exists>c. analyze_comment_patterns st = Inr c \<and>
        (total_comments c = 0 \<longrightarrow> avg_comment_length c = 0))"
proof -
  have "\<exists>r. analyze_user_activity st = Inr r" by (simp add: analyze_user_activity_total)
  then obtain r where r: "analyze_user_activity st = Inr r" ..
  from analyze_comment_patterns_total [of st]
  obtain c where c: "analyze_comment_patterns st = Inr c"
    and c0: "total_comments c = 0 \<longrightarrow> avg_comment_length c = 0"
    by auto
  have divisors: "\<forall>e \<in> set r. 0 < post_count (snd e) \<and>
           avg_comments_per_post (snd e)
             = of_nat (total_comments_received (snd e)) / of_nat (post_count (snd e)) \<and>
           avg_post_length (snd e)
             = of_nat (total_words_in_posts (snd e)) / of_nat (post_count (snd e))"
    using user_activity_divisors [of st] r by simp
  have skip: "post_count m = 0 \<longrightarrow> finalize us (uid, m) = Inr (uid, m)"
    by (simp add: finalize_def)
  have dflt: "finalize us (uid, default_metrics) = Inr (uid, default_metrics)"
    by (simp add: finalize_def default_metrics_def)
  have zeros: "avg_comments_per_post default_metrics = 0 \<and> avg_post_length default_metrics = 0"
    by (simp add: default_metrics_def)
  show ?thesis
    using r divisors skip dflt zeros c c0 by simp
qed

theorem averages_guard_zero_counts_witness:
  "post_count default_metrics = 0 \<and>
   finalize [] (7, default_metrics) = Inr (7, default_metrics) \<and>
   (\<exists>r. analyze_user_activity silent_state = Inr r \<and> r \<noteq> [] \<and>
        (\<forall>e \<in> set r. 0 < post_count (snd e))) \<and>
   (\<exists>c. analyze_comment_patterns silent_state = Inr c \<and> total_comments c = 0 \<and>
        avg_comment_length c = 0)"
proof -
  have pc: "post_count default_metrics = 0" by (simp add: default_metrics_def)
  have nonempty: "projr (analyze_user_activity silent_state) \<noteq> []"
    by (simp add: analyze_user_activity_total silent_state_def count_post_def
          count_comments_def post1_def post2_def)
  have zero: "total_comments (projr (analyze_comment_patterns silent_state)) = 0"
    by (simp add: analyze_comment_patterns_def silent_state_def)
  show ?thesis
    using averages_guard_zero_counts [of silent_state default_metrics "[]" 7] pc nonempty zero
    by auto
qed

section \<open>Properties of the post engagement analysis\<close>

lemma compute_title_stats_total: "\<exists>s. compute_title_stats ls = Inr s"
  by (cases ls) (simp_all add: compute_title_stats_def mean_def median_def Let_def)

lemma sorted_reverse_sorted: "sorted_wrt (\<lambda>a b. k a \<ge> k b) (sorted_reverse k xs)"
  unfolding sorted_reverse_def sorted_wrt_rev
  using sorted_sort_key [of k "rev xs"] by (simp add: sorted_map)

lemma sorted_reverse_stable:
  "filter (\<lambda>e. k e = n) (sorted_reverse k xs) = filter (\<lambda>e. k e = n) xs"
proof -
  have "filter (\<lambda>e. k e = n) (sorted_reverse k xs)
          = rev (filter (\<lambda>e. k e = n) (sort_key k (rev xs)))"
    by (simp add: sorted_reverse_def rev_filter)
  also have "\<dots> = rev (filter (\<lambda>e. k e = n) (rev xs))"
    by (simp only: sort_key_stable)
  also have "\<dots> = filter (\<lambda>e. k e = n) xs"
    by (simp add: rev_filter)
  finally show ?thesis .
qed

lemma length_sorted_reverse: "length (sorted_reverse k xs) = length xs"
  by (simp add: sorted_reverse_def)

lemma top_prefix_stable:
  "prefix (filter (\<lambda>e. k e = n) (take m (sorted_reverse k xs))) (filter (\<lambda>e. k e = n) xs)"
  using filter_mono_prefix [OF take_is_prefix, of "\<lambda>e. k e = n" m "sorted_reverse k xs"]
  by (simp add: sorted_reverse_stable)

text \<open>
  Claim C5: for every state the post engagement analysis returns a result whose
  \<^verbatim>\<open>most_engaging_posts\<close> is sorted by descending \<^verbatim>\<open>comment_count\<close>, has at most 5
  entries (5, or one per post when there are fewer posts), and keeps the ingestion order
  among equal counts: for each count, its entries with that count are, in the same order,
  the first of the posts' entries with that count.
\<close>

theorem most_engaging_sorted_top5_stable:
  "\<exists>r. analyze_post_engagement st = Inr r \<and>
     sorted_wrt (\<lambda>a b. comment_count a \<ge> comment_count b) (most_engaging_posts r) \<and>
     length (most_engaging_posts r) \<le> 5 \<and>
     length (most_engaging_posts r) = min 5 (length (posts st)) \<and>
     (\<forall>n. prefix (filter (\<lambda>e. comment_count e = n) (most_engaging_posts r))
                 (filter (\<lambda>e. comment_count e = n)
                    (map (engagement_of (group_comments (comments st))) (posts st))))"
proof (cases "posts st = []")
  case True
  then show ?thesis by (simp add: analyze_post_engagement_def)
next
  case False
  obtain s where s: "compute_title_stats (map (\<lambda>p. length (p_title p)) (posts st)) = Inr s"
    using compute_title_stats_total by blast
  show ?thesis using False s
    by (simp add: analyze_post_engagement_def Let_def sorted_wrt_take sorted_reverse_sorted
          length_sorted_reverse top_prefix_stable)
qed

theorem most_engaging_sorted_top5_stable_witness:
  "\<exists>r. analyze_post_engagement alice_state = Inr r \<and>
     sorted_wrt (\<lambda>a b. comment_count a \<ge> comment_count b) (most_engaging_posts r) \<and>
     length (most_engaging_posts r) = 2"
  using most_engaging_sorted_top5_stable [of alice_state]
  by (auto simp: alice_state_def)

section \<open>Properties of the comment pattern analysis\<close>

lemma keys_counter_add: "map fst (counter_add k c) = add_key k (map fst c)"
  by (simp add: counter_add_def keys_dd_modify add_key_def)

lemma keys_fold_counter_add: "map fst (fold counter_add ks c) = fold add_key ks (map fst c)"
  by (induction ks arbitrary: c) (simp_all add: keys_counter_add)

lemma set_first_seen: "set (first_seen xs) = set xs"
  by (simp add: first_seen_def)

lemma first_seen_snoc: "first_seen (xs @ [x]) = add_key x (first_seen xs)"
  by (simp add: first_seen_def add_key_def)

lemma fold_add_key: "fold add_key xs [] = first_seen xs"
proof (induction xs rule: rev_induct)
  case Nil
  show ?case by (simp add: first_seen_def)
next
  case (snoc x xs)
  then show ?case by (simp add: first_seen_snoc)
qed

lemma distinct_first_seen: "distinct (first_seen xs)"
  by (simp add: first_seen_def)

lemma dd_get_dd_modify:
  "dd_get d k (dd_modify d k' f es) = (if k = k' then f (dd_get d k es) else dd_get d k es)"
  by (induction es) (auto simp: dd_get_def)

lemma dd_get_counter_add:
  "dd_get 0 k (counter_add k' c) = dd_get 0 k c + (if k = k' then 1 else 0)"
  by (simp add: counter_add_def dd_get_dd_modify)

lemma dd_get_fold_counter_add:
  "dd_get 0 k (fold counter_add ks c) = dd_get 0 k c + count_list ks k"
  by (induction ks arbitrary: c) (auto simp: dd_get_counter_add)

lemma alist_by_keys:
  "distinct (map fst xs) \<Longrightarrow> map (\<lambda>k. (k, dd_get d k xs)) (map fst xs) = xs"
proof (induction xs)
  case Nil
  then show ?case by simp
next
  case (Cons x xs)
  have "\<And>k. k \<in> set (map fst xs) \<Longrightarrow> dd_get d k (x # xs) = dd_get d k xs"
    using Cons.prems by (cases x) (auto simp: dd_get_def)
  then have eq: "map (\<lambda>k. (k, dd_get d k (x # xs))) (map fst xs)
               = map (\<lambda>k. (k, dd_get d k xs)) (map fst xs)"
    by (intro map_cong) simp_all
  have head: "dd_get d (fst x) (x # xs) = snd x"
    by (cases x) (simp add: dd_get_def)
  have IH: "map (\<lambda>k. (k, dd_get d k xs)) (map fst xs) = xs"
    using Cons by simp
  show ?case
    by (simp only: list.map head eq IH prod.collapse)
qed

lemma dd_get_Nil: "dd_get d k [] = d"
  by (simp add: dd_get_def)

lemma counter_update_frequency: "counter_update ks [] = frequency_count ks"
proof -
  let ?c = "fold counter_add ks []"
  have keys: "map fst ?c = first_seen ks"
    by (simp add: keys_fold_counter_add fold_add_key)
  then have "distinct (map fst ?c)" by (simp add: distinct_first_seen)
  then have "?c = map (\<lambda>k. (k, dd_get 0 k ?c)) (map fst ?c)"
    by (simp only: alist_by_keys)
  also have "\<dots> = map (\<lambda>k. (k, count_list ks k)) (first_seen ks)"
    by (simp add: keys dd_get_fold_counter_add dd_get_Nil)
  finally show ?thesis by (simp add: counter_update_def frequency_count_def)
qed

lemma split_on_nonempty: "split_on sep s \<noteq> []"
  by (induction s) auto

lemma tl_split_on: "tl (split_on sep s) = [] \<longleftrightarrow> sep \<notin> set s"
  by (induction s) (auto simp: split_on_nonempty)

lemma last_split_on: "last (split_on sep s) = rev (takeWhile (\<lambda>c. c \<noteq> sep) (rev s))"
proof (induction s)
  case Nil
  show ?case by simp
next
  case (Cons c cs)
  show ?case
  proof (cases "c = sep")
    case True
    then show ?thesis using Cons by (simp add: split_on_nonempty takeWhile_append)
  next
    case False
    show ?thesis
    proof (cases "sep \<in> set cs")
      case True
      then have "tl (split_on sep cs) \<noteq> []" by (simp add: tl_split_on)
      moreover have "last (tl (split_on sep cs)) = last (split_on sep cs)"
        using calculation by (metis last_tl list.sel(2))
      moreover have "\<not> (\<forall>x \<in> set (rev cs). x \<noteq> sep)" using True by simp
      ultimately show ?thesis using False Cons True
        by (auto simp: takeWhile_append)
    next
      case False2: False
      then have t: "tl (split_on sep cs) = []" by (simp add: tl_split_on)
      then have "split_on sep cs = [hd (split_on sep cs)]"
        using split_on_nonempty [of sep cs] by (cases "split_on sep cs") auto
      then have "last (split_on sep cs) = hd (split_on sep cs)" by (metis last.simps)
      moreover have all: "takeWhile (\<lambda>c. c \<noteq> sep) (rev cs) = rev cs"
        using False2 by (auto simp: takeWhile_eq_all_conv)
      ultimately have "hd (split_on sep cs) = cs" using Cons by simp
      then have lhs: "last (split_on sep (c # cs)) = c # cs" using False t by simp
      have tw: "takeWhile (\<lambda>c. c \<noteq> sep) (rev cs @ [c]) = rev cs @ [c]"
        using False2 False by (auto simp: takeWhile_eq_all_conv)
      have rhs: "rev (takeWhile (\<lambda>c. c \<noteq> sep) (rev (c # cs))) = c # cs"
        by (simp only: rev.simps tw, simp)
      show ?thesis by (simp only: lhs rhs)
    qed
  qed
qed

lemma fold_comment_step_domains:
  "domains (fold comment_step cs acc)
     = counter_update (map (\<lambda>c. email_domain (c_email c)) cs) (domains acc)"
  by (induction cs arbitrary: acc) (simp_all add: comment_step_def counter_update_def Let_def)

lemma fold_comment_step_sentiment:
  "sentiment (fold comment_step cs acc) =
     \<lparr>positive_words = positive_words (sentiment acc)
          + (\<Sum>c\<leftarrow>cs. lexicon_hits simple_sentiment_pos (py_lower (c_body c))),
      negative_words = negative_words (sentiment acc)
          + (\<Sum>c\<leftarrow>cs. lexicon_hits simple_sentiment_neg (py_lower (c_body c))),
      question_comments = question_comments (sentiment acc)
          + length (filter (\<lambda>c. CHR ''?'' \<in> set (c_body c)) cs)\<rparr>"
  by (induction cs arbitrary: acc) (simp_all add: comment_step_def Let_def)


lemma lexicon_hits_card:
  assumes "distinct lexicon"
  shows "lexicon_hits lexicon text = card {w \<in> set lexicon. \<exists>pre suf. text = pre @ w @ suf}"
proof -
  have eq: "{w \<in> set lexicon. \<exists>pre suf. text = pre @ w @ suf}
          = set (filter (\<lambda>w. sublist w text) lexicon)"
    by (auto simp: sublist_def)
  have "distinct (filter (\<lambda>w. sublist w text) lexicon)"
    using assms by simp
  then have "card (set (filter (\<lambda>w. sublist w text) lexicon))
               = length (filter (\<lambda>w. sublist w text) lexicon)"
    by (rule distinct_card)
  then show ?thesis
    by (simp only: lexicon_hits_def eq)
qed

lemma distinct_lexicons: "distinct simple_sentiment_pos" "distinct simple_sentiment_neg"
  by (simp_all add: simple_sentiment_pos_def simple_sentiment_neg_def)

lemma sad_but_thanks:
  "lexicon_hits simple_sentiment_pos (py_lower ''This is sad but thanks!'') = 1"
  "lexicon_hits simple_sentiment_neg (py_lower ''This is sad but thanks!'') = 1"
  by (simp_all add: py_lower_def lower_char_def capitals_def smalls_def lexicon_hits_def
        simple_sentiment_pos_def simple_sentiment_neg_def sublist_code prefix_code)

lemma analyze_comment_patterns_fold:
  "comments st \<noteq> [] \<Longrightarrow>
   analyze_comment_patterns st =
     Inr \<lparr>total_comments = length (comments st),
          avg_comment_length =
            of_nat (total_length (fold comment_step (comments st) comment_acc0))
              / of_nat (length (comments st)),
          common_email_domains = most_common 5 (domains (fold comment_step (comments st) comment_acc0)),
          comments_by_hour = Some [],
          word_frequency = Some (word_counts (fold comment_step (comments st) comment_acc0)),
          sentiment_indicators = sentiment (fold comment_step (comments st) comment_acc0),
          most_common_words = most_common 10 (word_counts (fold comment_step (comments st) comment_acc0))\<rparr>"
  by (simp add: analyze_comment_patterns_def Let_def truediv_def)

text \<open>
  Claim C7: the analysis returns a result whose positive (negative) counter is the sum,
  over the comments, of the number of words of the positive (negative) lexicon that occur
  as a contiguous substring of the lowercased body, and whose \<^verbatim>\<open>question_comments\<close> is
  the number of comments whose body contains the character \<^verbatim>\<open>?\<close>. The loop body adds,
  for its comment, exactly that number to each counter and 1 or 0 to
  \<^verbatim>\<open>question_comments\<close>; for the body \<^verbatim>\<open>This is sad but thanks!\<close> it adds 1 to both
  counters and nothing to \<^verbatim>\<open>question_comments\<close>.
\<close>

theorem sentiment_substring_counts:
  "(\<exists>r. analyze_comment_patterns st = Inr r \<and>
      positive_words (sentiment_indicators r) =
        (\<Sum>c\<leftarrow>comments st. card {w \<in> set simple_sentiment_pos.
                                  \<exists>pre suf. py_lower (c_body c) = pre @ w @ suf}) \<and>
      negative_words (sentiment_indicators r) =
        (\<Sum>c\<leftarrow>comments st. card {w \<in> set simple_sentiment_neg.
                                  \<exists>pre suf. py_lower (c_body c) = pre @ w @ suf}) \<and>
      question_comments (sentiment_indicators r) =
        length (filter (\<lambda>c. CHR ''?'' \<in> set (c_body c)) (comments st))) \<and>
   positive_words (sentiment (comment_step c acc)) =
     positive_words (sentiment acc) +
       card {w \<in> set simple_sentiment_pos. \<exists>pre suf. py_lower (c_body c) = pre @ w @ suf} \<and>
   negative_words (sentiment (comment_step c acc)) =
     negative_words (sentiment acc) +
       card {w \<in> set simple_sentiment_neg. \<exists>pre suf. py_lower (c_body c) = pre @ w @ suf} \<and>
   question_comments (sentiment (comment_step c acc)) =
     question_comments (sentiment acc) + (if CHR ''?'' \<in> set (c_body c) then 1 else 0) \<and>
   (c_body c = ''This is sad but thanks!'' \<longrightarrow>
      positive_words (sentiment (comment_step c acc)) = positive_words (sentiment acc) + 1 \<and>
      negative_words (sentiment (comment_step c acc)) = negative_words (sentiment acc) + 1 \<and>
      question_comments (sentiment (comment_step c acc)) = question_comments (sentiment acc))"
proof -
  note hits = lexicon_hits_card [OF distinct_lexicons(1)] lexicon_hits_card [OF distinct_lexicons(2)]
  have whole: "\<exists>r. analyze_comment_patterns st = Inr r \<and>
      positive_words (sentiment_indicators r) =
        (\<Sum>c\<leftarrow>comments st. lexicon_hits simple_sentiment_pos (py_lower (c_body c))) \<and>
      negative_words (sentiment_indicators r) =
        (\<Sum>c\<leftarrow>comments st. lexicon_hits simple_sentiment_neg (py_lower (c_body c))) \<and>
      question_comments (sentiment_indicators r) =
        length (filter (\<lambda>c. CHR ''?'' \<in> set (c_body c)) (comments st))"
  proof (cases "comments st = []")
    case True
    then show ?thesis by (simp add: analyze_comment_patterns_def)
  next
    case False
    then show ?thesis
      by (simp add: analyze_comment_patterns_fold fold_comment_step_sentiment comment_acc0_def)
  qed
  have step: "positive_words (sentiment (comment_step c acc)) =
      positive_words (sentiment acc) + lexicon_hits simple_sentiment_pos (py_lower (c_body c))"
    "negative_words (sentiment (comment_step c acc)) =
      negative_words (sentiment acc) + lexicon_hits simple_sentiment_neg (py_lower (c_body c))"
    "question_comments (sentiment (comment_step c acc)) =
      question_comments (sentiment acc) + (if CHR ''?'' \<in> set (c_body c) then 1 else 0)"
    by (simp_all add: comment_step_def Let_def)
  have particular: "c_body c = ''This is sad but thanks!'' \<longrightarrow>
      positive_words (sentiment (comment_step c acc)) = positive_words (sentiment acc) + 1 \<and>
      negative_words (sentiment (comment_step c acc)) = negative_words (sentiment acc) + 1 \<and>
      question_comments (sentiment (comment_step c acc)) = question_comments (sentiment acc)"
    using sad_but_thanks by (simp add: step)
  show ?thesis
    using whole step particular unfolding hits by blast
qed

theorem sentiment_substring_counts_witness:
  "c_body comment1 = ''This is sad but thanks!'' \<and>
   positive_words (sentiment (comment_step comment1 comment_acc0)) = 1 \<and>
   negative_words (sentiment (comment_step comment1 comment_acc0)) = 1 \<and>
   question_comments (sentiment (comment_step comment1 comment_acc0)) = 0"
  using sentiment_substring_counts [of alice_state comment1 comment_acc0]
  by (simp add: comment1_def comment_acc0_def)

lemma most_common_props:
  "\<exists>ys. most_common m c = take m ys \<and> sorted_wrt (\<lambda>a b. snd a \<ge> snd b) ys \<and>
        (\<forall>n. filter (\<lambda>e. snd e = n) ys = filter (\<lambda>e. snd e = n) c)"
  unfolding most_common_def
  by (rule exI [where x = "sorted_reverse snd c"])
     (simp add: sorted_reverse_sorted sorted_reverse_stable)

text \<open>
  Claim C6: for a non-empty comment collection the analysis returns a result whose
  \<^verbatim>\<open>common_email_domains\<close> is the first five entries of a list that is sorted by
  descending count and holds, for each count, the entries of the frequency count with
  that count in their first-encountered order; the frequency count is taken over the
  domains of the comments, the domain being what follows the last \<^verbatim>\<open>@\<close> of the
  lowercased email (all of it when it has none).
\<close>

theorem common_email_domains_top5:
  assumes "comments st \<noteq> []"
  shows "\<exists>r. analyze_comment_patterns st = Inr r \<and>
     (\<exists>ys. common_email_domains r = take 5 ys \<and>
           sorted_wrt (\<lambda>a b. snd a \<ge> snd b) ys \<and>
           (\<forall>n. filter (\<lambda>e. snd e = n) ys =
                filter (\<lambda>e. snd e = n)
                  (frequency_count
                     (map (\<lambda>c. rev (takeWhile (\<lambda>x. x \<noteq> CHR ''@'') (rev (py_lower (c_email c)))))
                        (comments st)))))"
proof -
  have "domains (fold comment_step (comments st) comment_acc0)
          = frequency_count (map (\<lambda>c. email_domain (c_email c)) (comments st))"
    by (simp add: fold_comment_step_domains comment_acc0_def counter_update_frequency)
  also have "\<dots> = frequency_count
      (map (\<lambda>c. rev (takeWhile (\<lambda>x. x \<noteq> CHR ''@'') (rev (py_lower (c_email c))))) (comments st))"
    by (simp add: email_domain_def last_split_on)
  finally show ?thesis
    using assms most_common_props by (simp add: analyze_comment_patterns_fold)
qed

theorem common_email_domains_top5_witness:
  "comments alice_state \<noteq> [] \<and>
   (\<exists>r. analyze_comment_patterns alice_state = Inr r \<and>
     (\<exists>ys. common_email_domains r = take 5 ys \<and>
           sorted_wrt (\<lambda>a b. snd a \<ge> snd b) ys \<and>
           (\<forall>n. filter (\<lambda>e. snd e = n) ys = filter (\<lambda>e. snd e = n) [(''example.org'', 1)])))"
  using common_email_domains_top5 [of alice_state]
  by (simp add: alice_state_def comment1_def frequency_count_def first_seen_def
        py_lower_def lower_char_def capitals_def smalls_def)

section \<open>Properties of ingestion\<close>






























section \<open>Properties of the streams\<close>

lemma fst_posts_from: "map fst (posts_from utcnow i rs) = filter (\<lambda>r. even (p_id r)) rs"
  by (induction rs arbitrary: i) (simp_all add: even_iff_mod_2_eq_zero)

lemma fst_comments_from:
  "map fst (comments_from utcnow i rs) = filter (\<lambda>r. even (c_postId r)) rs"
  by (induction rs arbitrary: i) (simp_all add: even_iff_mod_2_eq_zero)

text \<open>
  Claim C10: the records that \<^verbatim>\<open>PostsStream.parse_response\<close> yields are, in order, exactly
  the fetched posts whose \<^verbatim>\<open>id\<close> is even, and those that
  \<^verbatim>\<open>CommentsStream.parse_response\<close> yields are exactly the fetched comments whose
  \<^verbatim>\<open>postId\<close> is even; a record with an odd \<^verbatim>\<open>id\<close> (\<^verbatim>\<open>postId\<close>) is not validated and
  is in no output.
\<close>

theorem parse_response_keeps_even:
  "map fst (posts_parse_response utcnow posts_fetched)
     = filter (\<lambda>r. even (p_id r)) posts_fetched \<and>
   map fst (comments_parse_response utcnow' comments_fetched)
     = filter (\<lambda>r. even (c_postId r)) comments_fetched"
  by (simp add: posts_parse_response_def comments_parse_response_def fst_posts_from
        fst_comments_from)

theorem parse_response_keeps_even_witness:
  "map fst (posts_parse_response (\<lambda>i. ''t'') [post1, post2, post4]) = [post2, post4] \<and>
   map fst (comments_parse_response (\<lambda>i. ''t'') [comment1, comment2]) = [comment2]"
  using parse_response_keeps_even
          [of "\<lambda>i. ''t''" "[post1, post2, post4]" "\<lambda>i. ''t''" "[comment1, comment2]"]
  by (simp add: post1_def post2_def post4_def comment1_def comment2_def)

end
